theory Spec2Isabelle
  imports Main
begin

section \<open>Data model\<close>

text \<open>
  The dispensing core of the pharmacist controller: the handler \<open>giveMedicines\<close>
  together with the Mongoose schema of the \<open>Medicine\<close> collection it writes to.
  Quantities are JavaScript numbers. The model holds the whole-number ones as
  integers; the one arithmetic operation of the handler, the subtraction of the
  deducting loop, is rounded to the nearest double as IEEE 754 does (see
  \<open>toNumber\<close>). Fractional quantities and magnitudes from \<open>2^1024\<close> on, which
  a double holds as \<open>Infinity\<close>, are outside the model.
\<close>

text \<open>
  A document of the \<open>Medicine\<close> collection (\<open>MedicineDocument\<close> in
  \<open>models/Medicine.ts\<close>).
\<close>

record medicine =
  name :: string
  quantity :: int
  lowStockThreshold :: int

text \<open>
  One entry of the \<open>medicines\<close> array of a request, which is also the element type
  of \<open>givenMedicines\<close>. The source calls its amount \<open>quantity\<close> as well; the field
  is named \<open>orderQuantity\<close> here because a record field name is global.
\<close>

record medicine_order =
  medicineName :: string
  orderQuantity :: int
  dosage :: string
  instructions :: string
  kala :: string
  anupana :: string

text \<open>
  Modelled from the spec: the \<open>Visit\<close> model (\<open>models/Visit.ts\<close> is not among
  the sources). The spec gives a visit the prescribed list, the one-way flag
  \<open>medicineGiven\<close> and the list \<open>givenMedicines\<close>, with no validator on either
  list, so saving a visit always succeeds.
\<close>

record visit =
  prescribedMedicines :: "medicine_order list"
  medicineGiven :: bool
  givenMedicines :: "medicine_order list"

text \<open>
  The request body \<open>{ visitId, hospitalId, medicines }\<close>. A field that is absent
  (or, for \<open>medicines\<close>, not an array) is \<open>None\<close>.
\<close>

record body =
  visitId :: "string option"
  hospitalId :: "string option"
  medicines :: "medicine_order list option"

text \<open>
  The database: the \<open>Medicine\<close> collection in its natural order, a document's
  position standing for its \<open>_id\<close>, and the \<open>Visit\<close> collection keyed by id.
\<close>

record db =
  medicineColl :: "medicine list"
  visitColl :: "string \<rightharpoonup> visit"

text \<open>The error a rejected \<open>save\<close> throws; it carries the rejected document.\<close>

datatype save_error = ValidationError medicine

text \<open>
  The responses of \<open>giveMedicines\<close>, one constructor for each \<open>return\<close> of the
  handler: the 200 response, the five 400 responses sent before any write, and the
  400 response of the \<open>catch\<close> block, which carries the caught error.
\<close>

datatype response =
    Success
  | InvalidRequest
  | VisitNotFound
  | AlreadyDispensed
  | MedicineNotFound string
  | InsufficientStock string int int
  | Caught save_error

section \<open>The Medicine collection\<close>

text \<open>
  The validators of \<open>medicineSchema\<close>: \<open>name\<close> is required (for a string: not
  empty), \<open>quantity\<close> and \<open>lowStockThreshold\<close> have \<open>min: 0\<close>.
\<close>

definition validate :: "medicine \<Rightarrow> bool" where
  "validate m \<longleftrightarrow> name m \<noteq> [] \<and> 0 \<le> quantity m \<and> 0 \<le> lowStockThreshold m"

text \<open>
  \<open>Medicine.findOne({ name })\<close>: the first document with that name, with its
  position, or \<open>None\<close> for \<open>null\<close>.
\<close>

fun findOne :: "medicine list \<Rightarrow> string \<Rightarrow> (nat \<times> medicine) option" where
  "findOne [] n = None"
| "findOne (m # rest) n =
     (if name m = n then Some (0, m)
      else (case findOne rest n of None \<Rightarrow> None | Some (i, d) \<Rightarrow> Some (Suc i, d)))"

text \<open>
  \<open>medicine.save()\<close> for the document at position \<open>i\<close>: validation runs first,
  on every path of the loaded document (all three are required paths), and
  throws without writing; otherwise the stored document is replaced.
\<close>

definition save :: "nat \<Rightarrow> medicine \<Rightarrow> medicine list \<Rightarrow> save_error + medicine list" where
  "save i m ms = (if validate m then Inr (ms[i := m]) else Inl (ValidationError m))"

section \<open>JavaScript numbers\<close>

text \<open>
  A double has a significand of 53 bits. \<open>shiftFor n\<close> is the number of low bits
  of \<open>n\<close> that do not fit: the number of halvings that bring \<open>n\<close> below
  \<open>2^53 = 9007199254740992\<close>.
\<close>

function shiftFor :: "nat \<Rightarrow> nat" where
  "shiftFor n = (if n < 9007199254740992 then 0 else Suc (shiftFor (n div 2)))"
  by pat_completeness auto
termination
  by (relation "measure id") auto

declare shiftFor.simps [simp del]

text \<open>
  The double nearest to a whole number, as the result of an arithmetic operation
  is stored: exact up to \<open>2^53\<close> in magnitude, beyond that the low bits are
  dropped and the significand is rounded to nearest, a tie going to the even
  significand.
\<close>

definition toNumber :: "int \<Rightarrow> int" where
  "toNumber x =
     (if \<bar>x\<bar> \<le> 9007199254740992 then x
      else let s = shiftFor (nat \<bar>x\<bar>);
               q = \<bar>x\<bar> div 2 ^ s;
               r = \<bar>x\<bar> mod 2 ^ s;
               h = 2 ^ (s - 1)
           in sgn x * (if r < h \<or> (r = h \<and> even q) then q else q + 1) * 2 ^ s)"

section \<open>The handler giveMedicines\<close>

text \<open>JavaScript's \<open>!v\<close> for an optional string: absent or empty.\<close>

definition falsy :: "string option \<Rightarrow> bool" where
  "falsy v \<longleftrightarrow> (case v of None \<Rightarrow> True | Some s \<Rightarrow> s = [])"

text \<open>
  The first loop (``Validate all medicines and stock first''): \<open>Some\<close> of the
  response it returns with, or \<open>None\<close> when it runs to its end.
\<close>

fun validateStock :: "medicine_order list \<Rightarrow> medicine list \<Rightarrow> response option" where
  "validateStock [] ms = None"
| "validateStock (item # rest) ms =
     (case findOne ms (medicineName item) of
        None \<Rightarrow> Some (MedicineNotFound (medicineName item))
      | Some (i, m) \<Rightarrow>
          if quantity m < orderQuantity item
          then Some (InsufficientStock (medicineName item) (quantity m) (orderQuantity item))
          else validateStock rest ms)"

text \<open>
  One iteration of the second loop (``Deduct inventory''): an absent medicine is
  skipped, a found one is decremented (\<open>medicine.quantity -= item.quantity\<close>, a
  subtraction of doubles) and saved.
\<close>

definition deductItem :: "medicine_order \<Rightarrow> medicine list \<Rightarrow> save_error + medicine list" where
  "deductItem item ms =
     (case findOne ms (medicineName item) of
        None \<Rightarrow> Inr ms
      | Some (i, m) \<Rightarrow> save i (m\<lparr>quantity := toNumber (quantity m - orderQuantity item)\<rparr>) ms)"

text \<open>
  The second loop: the error thrown by a \<open>save\<close>, if any, and the collection as
  the loop leaves it.
\<close>

fun deductInventory :: "medicine_order list \<Rightarrow> medicine list \<Rightarrow> save_error option \<times> medicine list" where
  "deductInventory [] ms = (None, ms)"
| "deductInventory (item # rest) ms =
     (case deductItem item ms of
        Inl e \<Rightarrow> (Some e, ms)
      | Inr ms' \<Rightarrow> deductInventory rest ms')"

text \<open>
  The contents of the collection after each successful \<open>save\<close> of the second
  loop, in order: the states another reader of the database can observe while
  the loop runs.
\<close>

fun deductTrace :: "medicine_order list \<Rightarrow> medicine list \<Rightarrow> medicine list list" where
  "deductTrace [] ms = []"
| "deductTrace (item # rest) ms =
     (case deductItem item ms of
        Inl e \<Rightarrow> []
      | Inr ms' \<Rightarrow> ms' # deductTrace rest ms')"

text \<open>
  The handler: the response sent and the database it leaves. In source order:
  the guard on the body (\<open>hospitalId\<close> is only tested for presence),
  \<open>Visit.findById\<close>, the test of \<open>medicineGiven\<close>, the validating loop, the
  deducting loop, and the write of the visit. An error thrown by a \<open>save\<close> of
  the deducting loop goes to the \<open>catch\<close> block, which answers with the error
  and leaves what was saved before it.
\<close>

definition giveMedicines :: "body \<Rightarrow> db \<Rightarrow> response \<times> db" where
  "giveMedicines req d =
     (if falsy (visitId req) \<or> falsy (hospitalId req) then (InvalidRequest, d)
      else case medicines req of
        None \<Rightarrow> (InvalidRequest, d)
      | Some items \<Rightarrow>
         (case visitId req of
            None \<Rightarrow> (InvalidRequest, d)
          | Some vid \<Rightarrow>
             (case visitColl d vid of
                None \<Rightarrow> (VisitNotFound, d)
              | Some v \<Rightarrow>
                  if medicineGiven v then (AlreadyDispensed, d)
                  else (case validateStock items (medicineColl d) of
                          Some r \<Rightarrow> (r, d)
                        | None \<Rightarrow>
                           (case deductInventory items (medicineColl d) of
                              (Some e, ms') \<Rightarrow> (Caught e, d\<lparr>medicineColl := ms'\<rparr>)
                            | (None, ms') \<Rightarrow>
                                (Success,
                                 d\<lparr>medicineColl := ms',
                                   visitColl := (visitColl d)(vid \<mapsto>
                                     v\<lparr>medicineGiven := True, givenMedicines := items\<rparr>)\<rparr>))))))"

text \<open>A sequence of calls, each on the database the previous one left.\<close>

fun giveMedicinesSeq :: "body list \<Rightarrow> db \<Rightarrow> db" where
  "giveMedicinesSeq [] d = d"
| "giveMedicinesSeq (req # reqs) d = giveMedicinesSeq reqs (snd (giveMedicines req d))"

section \<open>Notions used to state the properties\<close>

text \<open>
  The total amount a request asks of the medicine named \<open>n\<close>: the sum of the
  quantities of the items with that name.
\<close>

definition requested :: "medicine_order list \<Rightarrow> string \<Rightarrow> int" where
  "requested items n = sum_list (map orderQuantity (filter (\<lambda>item. medicineName item = n) items))"

text \<open>
  The responses that report an error found before the deducting loop starts. The
  200 response and the response of the \<open>catch\<close> block are not among them.
\<close>

fun nonFatal :: "response \<Rightarrow> bool" where
  "nonFatal InvalidRequest = True"
| "nonFatal VisitNotFound = True"
| "nonFatal AlreadyDispensed = True"
| "nonFatal (MedicineNotFound n) = True"
| "nonFatal (InsufficientStock n a r) = True"
| "nonFatal Success = False"
| "nonFatal (Caught e) = False"

section \<open>Fixtures for the concrete scenarios\<close>

text \<open>An order with fixed annotations, a stored medicine, and a visit not yet dispensed.\<close>

definition order :: "string \<Rightarrow> int \<Rightarrow> medicine_order" where
  "order n q = \<lparr>medicineName = n, orderQuantity = q, dosage = ''1-0-1'',
     instructions = ''after food'', kala = ''morning'', anupana = ''warm water''\<rparr>"

definition med :: "string \<Rightarrow> int \<Rightarrow> medicine" where
  "med n q = \<lparr>name = n, quantity = q, lowStockThreshold = 0\<rparr>"

definition pendingVisit :: visit where
  "pendingVisit = \<lparr>prescribedMedicines = [], medicineGiven = False, givenMedicines = []\<rparr>"

definition request :: "string \<Rightarrow> medicine_order list \<Rightarrow> body" where
  "request vid items = \<lparr>visitId = Some vid, hospitalId = Some ''h1'', medicines = Some items\<rparr>"

lemmas fixture_defs = order_def med_def pendingVisit_def request_def

lemmas handler_defs = giveMedicines_def falsy_def deductItem_def save_def validate_def toNumber_def

section \<open>Facts about the rounding\<close>

lemma toNumber_safe: "\<bar>x\<bar> \<le> 9007199254740992 \<Longrightarrow> toNumber x = x"
  by (simp add: toNumber_def)



text \<open>The first whole number above \<open>2^53\<close> loses one low bit.\<close>

lemma shiftFor_first_unsafe: "shiftFor 9007199254740993 = 1"
  by (simp add: shiftFor.simps)

section \<open>Facts about the collection and the two loops\<close>

lemma findOne_SomeD:
  "findOne ms n = Some (i, m) \<Longrightarrow> i < length ms \<and> ms ! i = m \<and> name m = n"
proof (induction ms arbitrary: i)
  case Nil
  then show ?case by simp
next
  case (Cons a ms)
  show ?case
  proof (cases "name a = n")
    case True
    with Cons.prems show ?thesis by simp
  next
    case False
    with Cons.prems obtain j where j: "findOne ms n = Some (j, m)" and i: "i = Suc j"
      by (auto split: option.splits)
    from Cons.IH[OF j] i show ?thesis by simp
  qed
qed

lemma findOne_None_iff: "findOne ms n = None \<longleftrightarrow> n \<notin> name ` set ms"
  by (induction ms) (auto split: option.splits)

lemma findOne_update:
  "findOne ms k = Some (i, m) \<Longrightarrow> name m' = name m \<Longrightarrow>
   findOne (ms[i := m']) n = (if n = k then Some (i, m') else findOne ms n)"
proof (induction ms arbitrary: i)
  case Nil
  then show ?case by simp
next
  case (Cons a ms)
  show ?case
  proof (cases "name a = k")
    case True
    with Cons.prems have "i = 0" "m = a" by simp_all
    with True Cons.prems(2) show ?thesis by auto
  next
    case False
    with Cons.prems obtain j where j: "findOne ms k = Some (j, m)" and i: "i = Suc j"
      by (auto split: option.splits)
    from Cons.IH[OF j Cons.prems(2)] i False show ?thesis by auto
  qed
qed

lemma deductItem_absent:
  "findOne ms (medicineName item) = None \<Longrightarrow> deductItem item ms = Inr ms"
  by (simp add: deductItem_def)

lemma deductItem_found:
  "findOne ms (medicineName item) = Some (i, m) \<Longrightarrow>
   deductItem item ms =
     (if validate (m\<lparr>quantity := toNumber (quantity m - orderQuantity item)\<rparr>)
      then Inr (ms[i := m\<lparr>quantity := toNumber (quantity m - orderQuantity item)\<rparr>])
      else Inl (ValidationError (m\<lparr>quantity := toNumber (quantity m - orderQuantity item)\<rparr>)))"
  by (simp add: deductItem_def save_def)

lemma deductItem_cases:
  obtains (absent) "findOne ms (medicineName item) = None" "deductItem item ms = Inr ms"
  | (saved) i m where "findOne ms (medicineName item) = Some (i, m)"
      "validate (m\<lparr>quantity := toNumber (quantity m - orderQuantity item)\<rparr>)"
      "deductItem item ms = Inr (ms[i := m\<lparr>quantity := toNumber (quantity m - orderQuantity item)\<rparr>])"
  | (thrown) i m where "findOne ms (medicineName item) = Some (i, m)"
      "\<not> validate (m\<lparr>quantity := toNumber (quantity m - orderQuantity item)\<rparr>)"
      "deductItem item ms = Inl (ValidationError (m\<lparr>quantity := toNumber (quantity m - orderQuantity item)\<rparr>))"
proof (cases "findOne ms (medicineName item)")
  case None
  then show ?thesis using absent by (simp add: deductItem_absent)
next
  case (Some p)
  obtain i m where p: "p = (i, m)" by (cases p)
  show ?thesis
  proof (cases "validate (m\<lparr>quantity := toNumber (quantity m - orderQuantity item)\<rparr>)")
    case True
    then show ?thesis using saved Some p by (simp add: deductItem_found)
  next
    case False
    then show ?thesis using thrown Some p by (simp add: deductItem_found)
  qed
qed

text \<open>The states listed by \<open>deductTrace\<close> end in the state the loop returns.\<close>

lemma deductTrace_last:
  "snd (deductInventory items ms) = last (ms # deductTrace items ms)"
  by (induction items arbitrary: ms) (auto split: sum.splits)

lemma giveMedicines_medicineColl:
  "medicineColl (snd (giveMedicines req d)) = medicineColl d \<or>
   (\<exists>items. medicines req = Some items \<and>
      medicineColl (snd (giveMedicines req d)) = snd (deductInventory items (medicineColl d)))"
  by (auto simp: giveMedicines_def split: option.splits prod.splits)

lemma requested_Nil: "requested [] n = 0"
  by (simp add: requested_def)

lemma requested_Cons:
  "requested (item # rest) n =
     (if medicineName item = n then orderQuantity item + requested rest n else requested rest n)"
  by (simp add: requested_def)

lemma requested_nonneg:
  "\<forall>item\<in>set items. 0 \<le> orderQuantity item \<Longrightarrow> 0 \<le> requested items n"
  by (induction items) (auto simp: requested_Cons requested_Nil)

lemma requested_ge:
  "\<forall>item\<in>set items. 0 \<le> orderQuantity item \<Longrightarrow> x \<in> set items \<Longrightarrow>
   orderQuantity x \<le> requested items (medicineName x)"
proof (induction items)
  case Nil
  then show ?case by simp
next
  case (Cons a items)
  have nn: "0 \<le> requested items (medicineName x)"
    using Cons.prems(1) by (simp add: requested_nonneg)
  show ?case
  proof (cases "x = a")
    case True
    with nn show ?thesis by (simp add: requested_Cons)
  next
    case False
    with Cons have "orderQuantity x \<le> requested items (medicineName x)" by simp
    moreover have "0 \<le> orderQuantity a" using Cons.prems(1) by simp
    ultimately show ?thesis by (simp add: requested_Cons)
  qed
qed

lemma validateStock_pass:
  "\<forall>item\<in>set items. \<exists>i m. findOne ms (medicineName item) = Some (i, m) \<and> orderQuantity item \<le> quantity m
   \<Longrightarrow> validateStock items ms = None"
  by (induction items) auto

lemma validateStock_append:
  "validateStock pre ms = None \<Longrightarrow> validateStock (pre @ rest) ms = validateStock rest ms"
  by (induction pre) (auto split: option.splits if_splits)


lemma deductInventory_exact:
  assumes "\<forall>item\<in>set items. 0 \<le> orderQuantity item"
    and "\<forall>item\<in>set items. \<exists>i m. findOne ms (medicineName item) = Some (i, m) \<and> validate m \<and>
           requested items (medicineName item) \<le> quantity m \<and> quantity m \<le> 9007199254740992"
  shows "\<exists>ms'. deductInventory items ms = (None, ms') \<and> length ms' = length ms \<and>
           (\<forall>n. findOne ms' n =
              (case findOne ms n of None \<Rightarrow> None
               | Some (i, m) \<Rightarrow> Some (i, m\<lparr>quantity := quantity m - requested items n\<rparr>)))"
  using assms
proof (induction items arbitrary: ms)
  case Nil
  then show ?case by (auto simp: requested_Nil split: option.splits)
next
  case (Cons item rest)
  let ?k = "medicineName item"
  let ?q = "orderQuantity item"
  from Cons.prems(2) obtain i m where
    f: "findOne ms ?k = Some (i, m)" and vm: "validate m"
    and le: "requested (item # rest) ?k \<le> quantity m"
    and hi: "quantity m \<le> 9007199254740992"
    by auto
  have nnrest: "\<forall>x\<in>set rest. 0 \<le> orderQuantity x" using Cons.prems(1) by simp
  have q0: "0 \<le> ?q" using Cons.prems(1) by simp
  have r0: "0 \<le> requested rest ?k" using nnrest by (rule requested_nonneg)
  let ?m' = "m\<lparr>quantity := quantity m - ?q\<rparr>"
  let ?ms1 = "ms[i := ?m']"
  from le r0 have qle: "?q \<le> quantity m" by (simp add: requested_Cons)
  with vm have vm': "validate ?m'" by (simp add: validate_def)
  from q0 qle hi have "\<bar>quantity m - ?q\<bar> \<le> 9007199254740992" by simp
  then have exact: "toNumber (quantity m - ?q) = quantity m - ?q" by (rule toNumber_safe)
  with f vm' have step: "deductItem item ms = Inr ?ms1" by (simp add: deductItem_found)
  have f1: "\<And>n. findOne ?ms1 n = (if n = ?k then Some (i, ?m') else findOne ms n)"
    using findOne_update[OF f, of ?m'] by simp
  have pre: "\<forall>x\<in>set rest. \<exists>j d. findOne ?ms1 (medicineName x) = Some (j, d) \<and> validate d \<and>
           requested rest (medicineName x) \<le> quantity d \<and> quantity d \<le> 9007199254740992"
  proof
    fix x assume x: "x \<in> set rest"
    show "\<exists>j d. findOne ?ms1 (medicineName x) = Some (j, d) \<and> validate d \<and>
           requested rest (medicineName x) \<le> quantity d \<and> quantity d \<le> 9007199254740992"
    proof (cases "medicineName x = ?k")
      case True
      from le have "requested rest ?k \<le> quantity ?m'" by (simp add: requested_Cons)
      moreover from q0 hi have "quantity ?m' \<le> 9007199254740992" by simp
      ultimately show ?thesis using True vm' f1 by simp
    next
      case False
      from Cons.prems(2) x obtain j d where
        "findOne ms (medicineName x) = Some (j, d)" "validate d"
        "requested (item # rest) (medicineName x) \<le> quantity d"
        "quantity d \<le> 9007199254740992" by auto
      moreover from False have "medicineName item \<noteq> medicineName x" by auto
      ultimately show ?thesis using False f1 by (simp add: requested_Cons)
    qed
  qed
  from Cons.IH[OF nnrest pre] obtain ms' where
    run: "deductInventory rest ?ms1 = (None, ms')" and len: "length ms' = length ?ms1"
    and fin: "\<And>n. findOne ms' n =
              (case findOne ?ms1 n of None \<Rightarrow> None
               | Some (i, m) \<Rightarrow> Some (i, m\<lparr>quantity := quantity m - requested rest n\<rparr>))"
    by blast
  have "\<forall>n. findOne ms' n =
              (case findOne ms n of None \<Rightarrow> None
               | Some (i, m) \<Rightarrow> Some (i, m\<lparr>quantity := quantity m - requested (item # rest) n\<rparr>))"
  proof
    fix n
    show "findOne ms' n =
              (case findOne ms n of None \<Rightarrow> None
               | Some (i, m) \<Rightarrow> Some (i, m\<lparr>quantity := quantity m - requested (item # rest) n\<rparr>))"
    proof (cases "n = ?k")
      case True
      with fin[of n] f1[of n] f show ?thesis by (simp add: requested_Cons algebra_simps)
    next
      case False
      then have "requested (item # rest) n = requested rest n" by (auto simp: requested_Cons)
      with False fin[of n] f1[of n] show ?thesis by (simp split: option.splits)
    qed
  qed
  with run len step show ?case by simp
qed

lemma giveMedicines_pending:
  assumes "visitId req = Some vid" "vid \<noteq> []" "\<not> falsy (hospitalId req)"
    "medicines req = Some items" "visitColl d vid = Some v" "\<not> medicineGiven v"
  shows "giveMedicines req d =
     (case validateStock items (medicineColl d) of
        Some r \<Rightarrow> (r, d)
      | None \<Rightarrow>
         (case deductInventory items (medicineColl d) of
            (Some e, ms') \<Rightarrow> (Caught e, d\<lparr>medicineColl := ms'\<rparr>)
          | (None, ms') \<Rightarrow>
              (Success,
               d\<lparr>medicineColl := ms',
                 visitColl := (visitColl d)(vid \<mapsto>
                   v\<lparr>medicineGiven := True, givenMedicines := items\<rparr>)\<rparr>)))"
  using assms by (simp add: giveMedicines_def falsy_def)

lemma giveMedicines_cases:
  "giveMedicines req d = (fst (giveMedicines req d), d) \<or>
   (\<exists>e. fst (giveMedicines req d) = Caught e) \<or> fst (giveMedicines req d) = Success"
  by (auto simp: giveMedicines_def split: option.splits prod.splits)

lemma deductItem_frame:
  assumes "deductItem item ms = Inr ms'"
  shows "map name ms' = map name ms \<and> map lowStockThreshold ms' = map lowStockThreshold ms \<and>
         (\<forall>j<length ms. name (ms ! j) \<noteq> medicineName item \<longrightarrow> ms' ! j = ms ! j)"
proof (cases rule: deductItem_cases[where ms = ms and item = item])
  case absent
  with assms show ?thesis by simp
next
  case (saved i m)
  from findOne_SomeD[OF saved(1)] have i: "i < length ms" "ms ! i = m" "name m = medicineName item"
    by simp_all
  from saved(3) assms have ms': "ms' = ms[i := m\<lparr>quantity := toNumber (quantity m - orderQuantity item)\<rparr>]"
    by simp
  have "map name ms' = (map name ms)[i := name m]"
    unfolding ms' by (simp add: map_update)
  moreover have "map lowStockThreshold ms' = (map lowStockThreshold ms)[i := lowStockThreshold m]"
    unfolding ms' by (simp add: map_update)
  moreover have "\<forall>j<length ms. name (ms ! j) \<noteq> medicineName item \<longrightarrow> ms' ! j = ms ! j"
    unfolding ms' using i by (auto simp: nth_list_update)
  ultimately show ?thesis using i by (simp add: list_update_same_conv)
next
  case (thrown i m)
  with assms show ?thesis by simp
qed

lemma deductInventory_frame:
  "map name (snd (deductInventory items ms)) = map name ms \<and>
   map lowStockThreshold (snd (deductInventory items ms)) = map lowStockThreshold ms \<and>
   (\<forall>j<length ms. name (ms ! j) \<notin> medicineName ` set items \<longrightarrow>
      snd (deductInventory items ms) ! j = ms ! j)"
proof (induction items arbitrary: ms)
  case Nil
  show ?case by simp
next
  case (Cons item rest)
  show ?case
  proof (cases "deductItem item ms")
    case (Inl e)
    then show ?thesis by simp
  next
    case (Inr ms1)
    note fr = deductItem_frame[OF Inr]
    from fr have len: "length ms1 = length ms" by (metis length_map)
    have names: "\<And>j. j < length ms \<Longrightarrow> name (ms1 ! j) = name (ms ! j)"
      using fr len by (metis nth_map)
    note ih = Cons.IH[of ms1]
    have run: "deductInventory (item # rest) ms = deductInventory rest ms1"
      using Inr by simp
    have "\<forall>j<length ms. name (ms ! j) \<notin> medicineName ` set (item # rest) \<longrightarrow>
            snd (deductInventory rest ms1) ! j = ms ! j"
    proof (intro allI impI)
      fix j assume j: "j < length ms" and nj: "name (ms ! j) \<notin> medicineName ` set (item # rest)"
      from nj have a: "name (ms ! j) \<noteq> medicineName item" and b: "name (ms ! j) \<notin> medicineName ` set rest"
        by auto
      from fr j a have "ms1 ! j = ms ! j" by simp
      moreover from ih j len b names[OF j] have "snd (deductInventory rest ms1) ! j = ms1 ! j"
        by simp
      ultimately show "snd (deductInventory rest ms1) ! j = ms ! j" by simp
    qed
    with ih fr show ?thesis unfolding run by simp
  qed
qed

lemma giveMedicines_visitColl:
  "visitColl (snd (giveMedicines req d)) = visitColl d \<or>
   (\<exists>vid v. visitId req = Some vid \<and> visitColl d vid = Some v \<and>
      visitColl (snd (giveMedicines req d)) =
        (visitColl d)(vid \<mapsto> v\<lparr>medicineGiven := True, givenMedicines := the (medicines req)\<rparr>))"
  by (auto simp: giveMedicines_def split: option.splits prod.splits)

section \<open>Stock is never negative\<close>

lemma deductItem_nonneg:
  assumes "\<forall>m\<in>set ms. 0 \<le> quantity m" and "deductItem item ms = Inr ms'"
  shows "\<forall>m\<in>set ms'. 0 \<le> quantity m"
proof (cases rule: deductItem_cases[where ms = ms and item = item])
  case absent
  with assms show ?thesis by simp
next
  case (saved i m)
  with assms(2) have ms': "ms' = ms[i := m\<lparr>quantity := toNumber (quantity m - orderQuantity item)\<rparr>]" by simp
  from saved(2) have q: "0 \<le> quantity (m\<lparr>quantity := toNumber (quantity m - orderQuantity item)\<rparr>)"
    by (simp add: validate_def)
  show ?thesis
  proof
    fix x assume "x \<in> set ms'"
    then have "x \<in> insert (m\<lparr>quantity := toNumber (quantity m - orderQuantity item)\<rparr>) (set ms)"
      unfolding ms' using set_update_subset_insert by fast
    with q assms(1) show "0 \<le> quantity x" by auto
  qed
next
  case (thrown i m)
  with assms(2) show ?thesis by simp
qed

lemma deductInventory_nonneg:
  "\<forall>m\<in>set ms. 0 \<le> quantity m \<Longrightarrow> \<forall>m\<in>set (snd (deductInventory items ms)). 0 \<le> quantity m"
proof (induction items arbitrary: ms)
  case Nil
  then show ?case by simp
next
  case (Cons item rest)
  show ?case
  proof (cases "deductItem item ms")
    case (Inl e)
    with Cons.prems show ?thesis by simp
  next
    case (Inr ms')
    from deductItem_nonneg[OF Cons.prems Inr] have "\<forall>m\<in>set ms'. 0 \<le> quantity m" .
    from Cons.IH[OF this] Inr show ?thesis by simp
  qed
qed

lemma deductTrace_nonneg:
  "\<forall>m\<in>set ms. 0 \<le> quantity m \<Longrightarrow> \<forall>s\<in>set (deductTrace items ms). \<forall>m\<in>set s. 0 \<le> quantity m"
proof (induction items arbitrary: ms)
  case Nil
  then show ?case by simp
next
  case (Cons item rest)
  show ?case
  proof (cases "deductItem item ms")
    case (Inl e)
    then show ?thesis by simp
  next
    case (Inr ms')
    from deductItem_nonneg[OF Cons.prems Inr] have nn: "\<forall>m\<in>set ms'. 0 \<le> quantity m" .
    from Cons.IH[OF nn] nn Inr show ?thesis by simp
  qed
qed

lemma giveMedicines_nonneg:
  assumes "\<forall>m\<in>set (medicineColl d). 0 \<le> quantity m"
  shows "\<forall>m\<in>set (medicineColl (snd (giveMedicines req d))). 0 \<le> quantity m"
  using giveMedicines_medicineColl[of req d] deductInventory_nonneg[OF assms] assms
  by metis

lemma giveMedicinesSeq_nonneg:
  "\<forall>m\<in>set (medicineColl d). 0 \<le> quantity m \<Longrightarrow>
   \<forall>m\<in>set (medicineColl (giveMedicinesSeq reqs d)). 0 \<le> quantity m"
proof (induction reqs arbitrary: d)
  case Nil
  then show ?case by simp
next
  case (Cons req reqs)
  from giveMedicines_nonneg[OF Cons.prems]
  have "\<forall>m\<in>set (medicineColl (snd (giveMedicines req d))). 0 \<le> quantity m" .
  from Cons.IH[OF this] show ?case by simp
qed

text \<open>
  Claim C1. From a database in which no medicine has a negative quantity, any
  sequence of \<open>giveMedicines\<close> calls, whatever the requests (repeated medicine
  names included), leaves every quantity at least 0; and every content the
  collection passes through while the deducting loop of a further call runs,
  one \<open>save\<close> after the other, has no negative quantity either. Since the
  sequence is arbitrary, this covers the state after each call and the states
  inside each call.
\<close>

theorem quantity_never_negative:
  assumes "\<forall>m\<in>set (medicineColl d). 0 \<le> quantity m"
  shows "(\<forall>m\<in>set (medicineColl (giveMedicinesSeq reqs d)). 0 \<le> quantity m) \<and>
         (\<forall>items. \<forall>s\<in>set (deductTrace items (medicineColl (giveMedicinesSeq reqs d))).
            \<forall>m\<in>set s. 0 \<le> quantity m)"
  using giveMedicinesSeq_nonneg[OF assms] deductTrace_nonneg by blast

theorem quantity_never_negative_witness:
  "list_all (\<lambda>m. 0 \<le> quantity m) [med ''A'' 5, med ''B'' 4] \<and>
   list_all (\<lambda>m. 0 \<le> quantity m)
     (medicineColl (giveMedicinesSeq
        [request ''v1'' [order ''A'' 3, order ''A'' 3], request ''v1'' [order ''B'' 4]]
        \<lparr>medicineColl = [med ''A'' 5, med ''B'' 4], visitColl = [''v1'' \<mapsto> pendingVisit]\<rparr>)) \<and>
   list_all (list_all (\<lambda>m. 0 \<le> quantity m))
     (deductTrace [order ''A'' 1, order ''A'' 1]
       (medicineColl (giveMedicinesSeq
          [request ''v1'' [order ''A'' 3, order ''A'' 3], request ''v1'' [order ''B'' 4]]
          \<lparr>medicineColl = [med ''A'' 5, med ''B'' 4], visitColl = [''v1'' \<mapsto> pendingVisit]\<rparr>))) \<and>
   map quantity (medicineColl (giveMedicinesSeq
        [request ''v1'' [order ''A'' 3, order ''A'' 3], request ''v1'' [order ''B'' 4]]
        \<lparr>medicineColl = [med ''A'' 5, med ''B'' 4], visitColl = [''v1'' \<mapsto> pendingVisit]\<rparr>)) = [2, 0]"
proof -
  let ?d = "\<lparr>medicineColl = [med ''A'' 5, med ''B'' 4], visitColl = [''v1'' \<mapsto> pendingVisit]\<rparr>"
  have h: "\<forall>m\<in>set (medicineColl ?d). 0 \<le> quantity m"
    by (simp add: med_def)
  have v: "map quantity (medicineColl (giveMedicinesSeq
        [request ''v1'' [order ''A'' 3, order ''A'' 3], request ''v1'' [order ''B'' 4]] ?d)) = [2, 0]"
    by (simp add: handler_defs fixture_defs)
  have t: "(\<forall>m\<in>set (medicineColl (giveMedicinesSeq
        [request ''v1'' [order ''A'' 3, order ''A'' 3], request ''v1'' [order ''B'' 4]] ?d)). 0 \<le> quantity m) \<and>
      (\<forall>s\<in>set (deductTrace [order ''A'' 1, order ''A'' 1] (medicineColl (giveMedicinesSeq
        [request ''v1'' [order ''A'' 3, order ''A'' 3], request ''v1'' [order ''B'' 4]] ?d))).
          \<forall>m\<in>set s. 0 \<le> quantity m)"
    using quantity_never_negative[OF h] by blast
  from h have h': "list_all (\<lambda>m. 0 \<le> quantity m) [med ''A'' 5, med ''B'' 4]"
    by (simp add: list.pred_set)
  from t h' v show ?thesis
    unfolding list.pred_set by blast
qed

section \<open>A dispense within stock\<close>

text \<open>
  Claim C2, as the handler has it. The request names a visit not yet dispensed
  and carries a hospital id; every item has a name that is not empty and a
  positive quantity, and names a stored medicine whose stock is at least the
  total the request asks under that name, is a whole number of at most
  \<open>2^53 = 9007199254740992\<close> (where the subtraction of doubles is exact), and
  whose \<open>lowStockThreshold\<close> is not negative (so that the schema accepts the
  document when it is saved). Then the call succeeds; every medicine found by a
  name keeps its position, name and threshold and its quantity is lowered by
  exactly the total requested under that name (by 0 for a name the request does
  not mention); the visit is stored with \<open>medicineGiven\<close> true and
  \<open>givenMedicines\<close> equal to the request's list, annotations included.
\<close>

theorem dispense_decrements_exactly:
  assumes "visitId req = Some vid" "vid \<noteq> []" "\<not> falsy (hospitalId req)"
    "medicines req = Some items" "visitColl d vid = Some v" "\<not> medicineGiven v"
    and wf: "\<forall>item\<in>set items. medicineName item \<noteq> [] \<and> 0 < orderQuantity item"
    and enough: "\<forall>item\<in>set items. \<exists>i m. findOne (medicineColl d) (medicineName item) = Some (i, m) \<and>
           requested items (medicineName item) \<le> quantity m \<and>
           quantity m \<le> 9007199254740992 \<and> 0 \<le> lowStockThreshold m"
  shows "\<exists>ms'. giveMedicines req d =
           (Success,
            d\<lparr>medicineColl := ms',
              visitColl := (visitColl d)(vid \<mapsto> v\<lparr>medicineGiven := True, givenMedicines := items\<rparr>)\<rparr>) \<and>
         length ms' = length (medicineColl d) \<and>
         (\<forall>n. findOne ms' n =
            (case findOne (medicineColl d) n of None \<Rightarrow> None
             | Some (i, m) \<Rightarrow> Some (i, m\<lparr>quantity := quantity m - requested items n\<rparr>)))"
proof -
  let ?ms = "medicineColl d"
  have nn: "\<forall>item\<in>set items. 0 \<le> orderQuantity item" using wf by auto
  have found: "\<forall>item\<in>set items. \<exists>i m. findOne ?ms (medicineName item) = Some (i, m) \<and> validate m \<and>
           requested items (medicineName item) \<le> quantity m \<and> quantity m \<le> 9007199254740992"
  proof
    fix item assume it: "item \<in> set items"
    with enough obtain i m where f: "findOne ?ms (medicineName item) = Some (i, m)"
      and le: "requested items (medicineName item) \<le> quantity m"
      and hi: "quantity m \<le> 9007199254740992" and th: "0 \<le> lowStockThreshold m" by blast
    from findOne_SomeD[OF f] have "name m = medicineName item" by simp
    with wf it have nm: "name m \<noteq> []" by simp
    from requested_nonneg[OF nn] le have "0 \<le> quantity m"
      by (meson order_trans)
    with nm th have "validate m" by (simp add: validate_def)
    with f le hi show "\<exists>i m. findOne ?ms (medicineName item) = Some (i, m) \<and> validate m \<and>
           requested items (medicineName item) \<le> quantity m \<and> quantity m \<le> 9007199254740992"
      by blast
  qed
  have "\<forall>item\<in>set items. \<exists>i m. findOne ?ms (medicineName item) = Some (i, m) \<and>
          orderQuantity item \<le> quantity m"
  proof
    fix item assume it: "item \<in> set items"
    with enough obtain i m where f: "findOne ?ms (medicineName item) = Some (i, m)"
      and le: "requested items (medicineName item) \<le> quantity m" by blast
    from requested_ge[OF nn it] le have "orderQuantity item \<le> quantity m" by simp
    with f show "\<exists>i m. findOne ?ms (medicineName item) = Some (i, m) \<and>
          orderQuantity item \<le> quantity m" by blast
  qed
  then have val: "validateStock items ?ms = None" by (rule validateStock_pass)
  from deductInventory_exact[OF nn found] obtain ms' where
    run: "deductInventory items ?ms = (None, ms')" and len: "length ms' = length ?ms"
    and fin: "\<forall>n. findOne ms' n =
            (case findOne ?ms n of None \<Rightarrow> None
             | Some (i, m) \<Rightarrow> Some (i, m\<lparr>quantity := quantity m - requested items n\<rparr>))"
    by blast
  from giveMedicines_pending[OF assms(1-6)] val run
  have "giveMedicines req d =
           (Success,
            d\<lparr>medicineColl := ms',
              visitColl := (visitColl d)(vid \<mapsto> v\<lparr>medicineGiven := True, givenMedicines := items\<rparr>)\<rparr>)"
    by simp
  with len fin show ?thesis by blast
qed

text \<open>
  Stock 10 of A and 4 of B; the request asks 3 of A, 4 of B and 2 more of A.
\<close>

theorem dispense_decrements_exactly_witness:
  "fst (giveMedicines (request ''v1'' [order ''A'' 3, order ''B'' 4, order ''A'' 2])
     \<lparr>medicineColl = [med ''A'' 10, med ''B'' 4], visitColl = [''v1'' \<mapsto> pendingVisit]\<rparr>) = Success \<and>
   findOne (medicineColl (snd (giveMedicines (request ''v1'' [order ''A'' 3, order ''B'' 4, order ''A'' 2])
     \<lparr>medicineColl = [med ''A'' 10, med ''B'' 4], visitColl = [''v1'' \<mapsto> pendingVisit]\<rparr>))) ''A'' =
     Some (0, med ''A'' 5) \<and>
   findOne (medicineColl (snd (giveMedicines (request ''v1'' [order ''A'' 3, order ''B'' 4, order ''A'' 2])
     \<lparr>medicineColl = [med ''A'' 10, med ''B'' 4], visitColl = [''v1'' \<mapsto> pendingVisit]\<rparr>))) ''B'' =
     Some (1, med ''B'' 0) \<and>
   visitColl (snd (giveMedicines (request ''v1'' [order ''A'' 3, order ''B'' 4, order ''A'' 2])
     \<lparr>medicineColl = [med ''A'' 10, med ''B'' 4], visitColl = [''v1'' \<mapsto> pendingVisit]\<rparr>)) ''v1'' =
     Some \<lparr>prescribedMedicines = [], medicineGiven = True,
            givenMedicines = [order ''A'' 3, order ''B'' 4, order ''A'' 2]\<rparr>"
proof -
  let ?items = "[order ''A'' 3, order ''B'' 4, order ''A'' 2]"
  let ?req = "request ''v1'' ?items"
  let ?d = "\<lparr>medicineColl = [med ''A'' 10, med ''B'' 4], visitColl = [''v1'' \<mapsto> pendingVisit]\<rparr>"
  have h1: "visitId ?req = Some ''v1''" and h2: "''v1'' \<noteq> []"
    and h3: "\<not> falsy (hospitalId ?req)" and h4: "medicines ?req = Some ?items"
    and h5: "visitColl ?d ''v1'' = Some pendingVisit" and h6: "\<not> medicineGiven pendingVisit"
    by (simp_all add: fixture_defs falsy_def)
  have h7: "\<forall>item\<in>set ?items. medicineName item \<noteq> [] \<and> 0 < orderQuantity item"
    by (simp add: fixture_defs)
  have h8: "\<forall>item\<in>set ?items. \<exists>i m. findOne (medicineColl ?d) (medicineName item) = Some (i, m) \<and>
           requested ?items (medicineName item) \<le> quantity m \<and>
           quantity m \<le> 9007199254740992 \<and> 0 \<le> lowStockThreshold m"
    by (simp add: fixture_defs requested_def)
  from dispense_decrements_exactly[OF h1 h2 h3 h4 h5 h6 h7 h8] obtain ms' where
    eq: "giveMedicines ?req ?d =
           (Success, ?d\<lparr>medicineColl := ms',
              visitColl := (visitColl ?d)(''v1'' \<mapsto> pendingVisit\<lparr>medicineGiven := True, givenMedicines := ?items\<rparr>)\<rparr>)"
    and fin: "\<And>n. findOne ms' n =
            (case findOne (medicineColl ?d) n of None \<Rightarrow> None
             | Some (i, m) \<Rightarrow> Some (i, m\<lparr>quantity := quantity m - requested ?items n\<rparr>))"
    by blast
  have a: "findOne ms' ''A'' = Some (0, med ''A'' 5)"
    unfolding fin by (simp add: fixture_defs requested_def)
  have b: "findOne ms' ''B'' = Some (1, med ''B'' 0)"
    unfolding fin by (simp add: fixture_defs requested_def)
  show ?thesis
    unfolding eq using a b by (simp add: pendingVisit_def)
qed

text \<open>
  Claim C2 as stated asks only that each item on its own is within the stock of
  an existing medicine. Three runs in which that holds and the claim fails.
  Stock 10 and two items of 6 of the same medicine: the second \<open>save\<close> is
  rejected and the call does not succeed. Stock 9007199254740994 and one item
  of 1: the call succeeds, but the difference 9007199254740993 is not a double
  and the stock stored is 9007199254740992, lowered by 2. A stored medicine with
  \<open>lowStockThreshold\<close> -1, stock 5 and one item of 1: \<open>save\<close> validates the
  whole document, rejects it, and the call does not succeed.
\<close>

theorem dispense_per_item_counterexample:
  "findOne [med ''Paracetamol'' 10] ''Paracetamol'' = Some (0, med ''Paracetamol'' 10) \<and>
   orderQuantity (order ''Paracetamol'' 6) \<le> quantity (med ''Paracetamol'' 10) \<and>
   giveMedicines (request ''v1'' [order ''Paracetamol'' 6, order ''Paracetamol'' 6])
     \<lparr>medicineColl = [med ''Paracetamol'' 10], visitColl = [''v1'' \<mapsto> pendingVisit]\<rparr> =
   (Caught (ValidationError (med ''Paracetamol'' (- 2))),
    \<lparr>medicineColl = [med ''Paracetamol'' 4], visitColl = [''v1'' \<mapsto> pendingVisit]\<rparr>) \<and>
   giveMedicines (request ''v1'' [order ''Paracetamol'' 1])
     \<lparr>medicineColl = [med ''Paracetamol'' 9007199254740994],
       visitColl = [''v1'' \<mapsto> pendingVisit]\<rparr> =
   (Success,
    \<lparr>medicineColl = [med ''Paracetamol'' 9007199254740992],
      visitColl = [''v1'' \<mapsto>
        pendingVisit\<lparr>medicineGiven := True, givenMedicines := [order ''Paracetamol'' 1]\<rparr>]\<rparr>) \<and>
   giveMedicines (request ''v1'' [order ''Paracetamol'' 1])
     \<lparr>medicineColl = [\<lparr>name = ''Paracetamol'', quantity = 5, lowStockThreshold = - 1\<rparr>],
       visitColl = [''v1'' \<mapsto> pendingVisit]\<rparr> =
   (Caught (ValidationError \<lparr>name = ''Paracetamol'', quantity = 4, lowStockThreshold = - 1\<rparr>),
    \<lparr>medicineColl = [\<lparr>name = ''Paracetamol'', quantity = 5, lowStockThreshold = - 1\<rparr>],
      visitColl = [''v1'' \<mapsto> pendingVisit]\<rparr>)"
  by (simp add: giveMedicines_def falsy_def deductItem_def save_def validate_def fixture_defs
        toNumber_def Let_def shiftFor_first_unsafe)

section \<open>A rejected save in the deducting loop\<close>




section \<open>The request guard\<close>

text \<open>
  Claim C4, as the handler has it. A request whose visit id or hospital id is
  absent or empty, or whose \<open>medicines\<close> is not an array, is answered with
  \<open>InvalidRequest\<close> and the database is left as it was.
\<close>

theorem malformed_request_rejected:
  assumes "falsy (visitId req) \<or> falsy (hospitalId req) \<or> medicines req = None"
  shows "giveMedicines req d = (InvalidRequest, d)"
  using assms by (auto simp: giveMedicines_def falsy_def split: option.splits)

theorem malformed_request_rejected_witness:
  "giveMedicines \<lparr>visitId = Some ''v1'', hospitalId = Some ''h1'', medicines = None\<rparr>
     \<lparr>medicineColl = [med ''A'' 5], visitColl = [''v1'' \<mapsto> pendingVisit]\<rparr> =
   (InvalidRequest, \<lparr>medicineColl = [med ''A'' 5], visitColl = [''v1'' \<mapsto> pendingVisit]\<rparr>)"
proof -
  have "falsy (visitId \<lparr>visitId = Some ''v1'', hospitalId = Some ''h1'', medicines = None\<rparr>) \<or>
        falsy (hospitalId \<lparr>visitId = Some ''v1'', hospitalId = Some ''h1'', medicines = None\<rparr>) \<or>
        medicines \<lparr>visitId = Some ''v1'', hospitalId = Some ''h1'', medicines = None\<rparr> = None"
    by simp
  then show ?thesis by (rule malformed_request_rejected)
qed

text \<open>
  Claim C4 as stated also rejects an empty list, a blank name and a quantity that
  is not positive. The handler answers the empty list with success, the blank
  name with \<open>MedicineNotFound\<close>, and a quantity of -2 with success and a stock
  raised by 2.
\<close>

theorem invalid_request_counterexample:
  "giveMedicines (request ''v1'' [])
     \<lparr>medicineColl = [med ''A'' 5], visitColl = [''v1'' \<mapsto> pendingVisit]\<rparr> =
   (Success,
    \<lparr>medicineColl = [med ''A'' 5],
      visitColl = [''v1'' \<mapsto> pendingVisit\<lparr>medicineGiven := True\<rparr>]\<rparr>) \<and>
   giveMedicines (request ''v1'' [order '''' 1])
     \<lparr>medicineColl = [med ''A'' 5], visitColl = [''v1'' \<mapsto> pendingVisit]\<rparr> =
   (MedicineNotFound '''',
    \<lparr>medicineColl = [med ''A'' 5], visitColl = [''v1'' \<mapsto> pendingVisit]\<rparr>) \<and>
   giveMedicines (request ''v1'' [order ''A'' (- 2)])
     \<lparr>medicineColl = [med ''A'' 5], visitColl = [''v1'' \<mapsto> pendingVisit]\<rparr> =
   (Success,
    \<lparr>medicineColl = [med ''A'' 7],
      visitColl = [''v1'' \<mapsto> pendingVisit\<lparr>medicineGiven := True, givenMedicines := [order ''A'' (- 2)]\<rparr>]\<rparr>)"
  by (simp add: handler_defs fixture_defs)

section \<open>A visit already dispensed\<close>

text \<open>
  Claim C5, as the handler has it. When the request names a visit whose
  \<open>medicineGiven\<close> is true, the call leaves the whole database as it was, for
  every request body; the response is \<open>AlreadyDispensed\<close> when the body passes
  the request guard and \<open>InvalidRequest\<close> when it does not.
\<close>

theorem already_dispensed_no_mutation:
  assumes "visitId req = Some vid" "visitColl d vid = Some v" "medicineGiven v"
  shows "snd (giveMedicines req d) = d \<and>
         fst (giveMedicines req d) =
           (if vid = [] \<or> falsy (hospitalId req) \<or> medicines req = None
            then InvalidRequest else AlreadyDispensed)"
  using assms by (auto simp: giveMedicines_def falsy_def split: option.splits)

theorem already_dispensed_no_mutation_witness:
  "giveMedicines (request ''v1'' [order ''A'' 1])
     \<lparr>medicineColl = [med ''A'' 5],
       visitColl = [''v1'' \<mapsto> pendingVisit\<lparr>medicineGiven := True\<rparr>]\<rparr> =
   (AlreadyDispensed,
    \<lparr>medicineColl = [med ''A'' 5],
      visitColl = [''v1'' \<mapsto> pendingVisit\<lparr>medicineGiven := True\<rparr>]\<rparr>)"
proof -
  let ?req = "request ''v1'' [order ''A'' 1]"
  let ?d = "\<lparr>medicineColl = [med ''A'' 5],
       visitColl = [''v1'' \<mapsto> pendingVisit\<lparr>medicineGiven := True\<rparr>]\<rparr>"
  have h1: "visitId ?req = Some ''v1''"
    and h2: "visitColl ?d ''v1'' = Some (pendingVisit\<lparr>medicineGiven := True\<rparr>)"
    and h3: "medicineGiven (pendingVisit\<lparr>medicineGiven := True\<rparr>)"
    by (simp_all add: fixture_defs)
  have g: "\<not> (''v1'' = [] \<or> falsy (hospitalId ?req) \<or> medicines ?req = None)"
    by (simp add: fixture_defs falsy_def)
  from already_dispensed_no_mutation[OF h1 h2 h3] g
  have "snd (giveMedicines ?req ?d) = ?d" and "fst (giveMedicines ?req ?d) = AlreadyDispensed"
    by simp_all
  then show ?thesis by (metis prod.collapse)
qed

text \<open>
  Claim C5 as stated returns \<open>AlreadyDispensed\<close> for every request body. A body
  without a hospital id is answered with \<open>InvalidRequest\<close>, dispensed visit or
  not.
\<close>

theorem already_dispensed_counterexample:
  "visitColl \<lparr>medicineColl = [med ''A'' 5],
       visitColl = [''v1'' \<mapsto> pendingVisit\<lparr>medicineGiven := True\<rparr>]\<rparr> ''v1'' =
     Some (pendingVisit\<lparr>medicineGiven := True\<rparr>) \<and>
   fst (giveMedicines \<lparr>visitId = Some ''v1'', hospitalId = None, medicines = Some [order ''A'' 1]\<rparr>
     \<lparr>medicineColl = [med ''A'' 5],
       visitColl = [''v1'' \<mapsto> pendingVisit\<lparr>medicineGiven := True\<rparr>]\<rparr>) = InvalidRequest \<and>
   InvalidRequest \<noteq> AlreadyDispensed"
  by (simp add: handler_defs fixture_defs)

section \<open>Errors and partial writes\<close>

text \<open>
  The five responses sent before the deducting loop starts leave the database
  exactly as it was; so does a request with the items \<open>a\<close>, in stock, and
  \<open>b\<close>, absent, which is answered \<open>MedicineNotFound\<close> with \<open>b\<close>'s name.
\<close>

lemma early_return_no_mutation:
  "(nonFatal (fst (giveMedicines req d)) \<longrightarrow> snd (giveMedicines req d) = d) \<and>
   (visitId req = Some vid \<and> vid \<noteq> [] \<and> \<not> falsy (hospitalId req) \<and>
    medicines req = Some [a, b] \<and> visitColl d vid = Some v \<and> \<not> medicineGiven v \<and>
    findOne (medicineColl d) (medicineName a) = Some (i, m) \<and> orderQuantity a \<le> quantity m \<and>
    findOne (medicineColl d) (medicineName b) = None
    \<longrightarrow> giveMedicines req d = (MedicineNotFound (medicineName b), d))"
proof (intro conjI impI)
  assume nf: "nonFatal (fst (giveMedicines req d))"
  from giveMedicines_cases[of req d] nf
  have "giveMedicines req d = (fst (giveMedicines req d), d)" by auto
  then show "snd (giveMedicines req d) = d" by (metis snd_conv)
next
  assume h: "visitId req = Some vid \<and> vid \<noteq> [] \<and> \<not> falsy (hospitalId req) \<and>
    medicines req = Some [a, b] \<and> visitColl d vid = Some v \<and> \<not> medicineGiven v \<and>
    findOne (medicineColl d) (medicineName a) = Some (i, m) \<and> orderQuantity a \<le> quantity m \<and>
    findOne (medicineColl d) (medicineName b) = None"
  then have "validateStock [a, b] (medicineColl d) = Some (MedicineNotFound (medicineName b))"
    by simp
  with h giveMedicines_pending[of req vid "[a, b]" d v]
  show "giveMedicines req d = (MedicineNotFound (medicineName b), d)" by simp
qed

text \<open>
  Claim C6. The claim has every error response leave all stock unchanged. The
  handler validates every item before it deducts any (``Validate all medicines
  and stock first''), but compares each item with the stock as stored, not with
  what the earlier items of the same request leave. Stock 8 and two items of 5
  of the same medicine pass the validating loop; the first decrement is saved,
  the second is rejected, and the call is answered with the error of its
  \<open>catch\<close> block while the stock stands at 3 and the visit is still not
  dispensed.
\<close>

theorem error_after_partial_write:
  "validateStock [order ''Ashwagandha'' 5, order ''Ashwagandha'' 5] [med ''Ashwagandha'' 8] = None \<and>
   giveMedicines (request ''v1'' [order ''Ashwagandha'' 5, order ''Ashwagandha'' 5])
     \<lparr>medicineColl = [med ''Ashwagandha'' 8], visitColl = [''v1'' \<mapsto> pendingVisit]\<rparr> =
   (Caught (ValidationError (med ''Ashwagandha'' (- 2))),
    \<lparr>medicineColl = [med ''Ashwagandha'' 3], visitColl = [''v1'' \<mapsto> pendingVisit]\<rparr>)"
  by (simp add: handler_defs fixture_defs)

section \<open>The validating loop\<close>

text \<open>
  Claim C7. The validating loop goes through the items in request order and
  returns at the first item that fails: when every item before \<open>item\<close> names a
  stored medicine with enough stock, an absent medicine of \<open>item\<close> gives
  \<open>MedicineNotFound\<close> with the item's name, and a stored medicine with less
  stock than the item asks gives \<open>InsufficientStock\<close> with the name, the stored
  quantity and the requested quantity; whatever follows \<open>item\<close> in the list has
  no influence on the response, and the database is unchanged.
\<close>

theorem validation_first_failure_reported:
  assumes "visitId req = Some vid" "vid \<noteq> []" "\<not> falsy (hospitalId req)"
    "medicines req = Some (pre @ item # post)" "visitColl d vid = Some v" "\<not> medicineGiven v"
    and ok: "\<forall>p\<in>set pre. \<exists>i m. findOne (medicineColl d) (medicineName p) = Some (i, m) \<and>
               orderQuantity p \<le> quantity m"
  shows "(findOne (medicineColl d) (medicineName item) = None \<longrightarrow>
            giveMedicines req d = (MedicineNotFound (medicineName item), d)) \<and>
         (\<forall>i m. findOne (medicineColl d) (medicineName item) = Some (i, m) \<and>
                 quantity m < orderQuantity item \<longrightarrow>
            giveMedicines req d =
              (InsufficientStock (medicineName item) (quantity m) (orderQuantity item), d))"
proof -
  from ok have "validateStock pre (medicineColl d) = None" by (rule validateStock_pass)
  then have v: "validateStock (pre @ item # post) (medicineColl d) =
                 validateStock (item # post) (medicineColl d)"
    by (rule validateStock_append)
  show ?thesis
    using giveMedicines_pending[OF assms(1-6)] v by auto
qed

text \<open>
  Stock 5 of Paracetamol: a request of 10 is answered
  \<open>InsufficientStock\<close> with 5 available and 10 required, although a later item
  names an absent medicine; with the two failing items swapped the absent one is
  reported.
\<close>

theorem validation_first_failure_reported_witness:
  "giveMedicines (request ''v1'' ([order ''A'' 1] @ order ''Paracetamol'' 10 # [order ''Z'' 1]))
     \<lparr>medicineColl = [med ''Paracetamol'' 5, med ''A'' 10], visitColl = [''v1'' \<mapsto> pendingVisit]\<rparr> =
     (InsufficientStock ''Paracetamol'' 5 10,
      \<lparr>medicineColl = [med ''Paracetamol'' 5, med ''A'' 10], visitColl = [''v1'' \<mapsto> pendingVisit]\<rparr>) \<and>
   giveMedicines (request ''v1'' ([order ''A'' 1] @ order ''Z'' 1 # [order ''Paracetamol'' 10]))
     \<lparr>medicineColl = [med ''Paracetamol'' 5, med ''A'' 10], visitColl = [''v1'' \<mapsto> pendingVisit]\<rparr> =
     (MedicineNotFound ''Z'',
      \<lparr>medicineColl = [med ''Paracetamol'' 5, med ''A'' 10], visitColl = [''v1'' \<mapsto> pendingVisit]\<rparr>)"
proof -
  let ?d = "\<lparr>medicineColl = [med ''Paracetamol'' 5, med ''A'' 10], visitColl = [''v1'' \<mapsto> pendingVisit]\<rparr>"
  let ?pre = "[order ''A'' 1]"
  let ?r1 = "request ''v1'' (?pre @ order ''Paracetamol'' 10 # [order ''Z'' 1])"
  let ?r2 = "request ''v1'' (?pre @ order ''Z'' 1 # [order ''Paracetamol'' 10])"
  have v: "''v1'' \<noteq> []" "visitColl ?d ''v1'' = Some pendingVisit" "\<not> medicineGiven pendingVisit"
    by (simp_all add: fixture_defs)
  have ok: "\<forall>p\<in>set ?pre. \<exists>i m. findOne (medicineColl ?d) (medicineName p) = Some (i, m) \<and>
               orderQuantity p \<le> quantity m"
    by (simp add: fixture_defs)
  have a1: "visitId ?r1 = Some ''v1''" "\<not> falsy (hospitalId ?r1)"
    "medicines ?r1 = Some (?pre @ order ''Paracetamol'' 10 # [order ''Z'' 1])"
    by (simp_all add: fixture_defs falsy_def)
  have a2: "visitId ?r2 = Some ''v1''" "\<not> falsy (hospitalId ?r2)"
    "medicines ?r2 = Some (?pre @ order ''Z'' 1 # [order ''Paracetamol'' 10])"
    by (simp_all add: fixture_defs falsy_def)
  have f1: "findOne (medicineColl ?d) (medicineName (order ''Paracetamol'' 10)) =
              Some (0, med ''Paracetamol'' 5) \<and>
            quantity (med ''Paracetamol'' 5) < orderQuantity (order ''Paracetamol'' 10)"
    by (simp add: fixture_defs)
  have f2: "findOne (medicineColl ?d) (medicineName (order ''Z'' 1)) = None"
    by (simp add: fixture_defs)
  from validation_first_failure_reported[OF a1(1) v(1) a1(2) a1(3) v(2) v(3) ok] f1
  have r1: "giveMedicines ?r1 ?d =
      (InsufficientStock (medicineName (order ''Paracetamol'' 10)) (quantity (med ''Paracetamol'' 5))
         (orderQuantity (order ''Paracetamol'' 10)), ?d)"
    by blast
  from validation_first_failure_reported[OF a2(1) v(1) a2(2) a2(3) v(2) v(3) ok] f2
  have r2: "giveMedicines ?r2 ?d = (MedicineNotFound (medicineName (order ''Z'' 1)), ?d)"
    by blast
  from r1 r2 show ?thesis by (simp add: order_def med_def)
qed

section \<open>What a call may write\<close>

text \<open>
  Claim C9. Whatever the request and the response, a call leaves the name and
  the \<open>lowStockThreshold\<close> of every stored medicine as they were, leaves the
  quantity of every medicine whose name no item of the request carries as it was,
  leaves every visit other than the one the request names as it was, and keeps
  every visit present with its \<open>prescribedMedicines\<close>.
\<close>

theorem dispense_frame:
  "map name (medicineColl (snd (giveMedicines req d))) = map name (medicineColl d) \<and>
   map lowStockThreshold (medicineColl (snd (giveMedicines req d))) =
     map lowStockThreshold (medicineColl d) \<and>
   (\<forall>j<length (medicineColl d).
      name (medicineColl d ! j) \<notin>
        medicineName ` set (case medicines req of None \<Rightarrow> [] | Some items \<Rightarrow> items) \<longrightarrow>
      quantity (medicineColl (snd (giveMedicines req d)) ! j) = quantity (medicineColl d ! j)) \<and>
   (\<forall>vid. visitId req \<noteq> Some vid \<longrightarrow>
      visitColl (snd (giveMedicines req d)) vid = visitColl d vid) \<and>
   (\<forall>vid v. visitColl d vid = Some v \<longrightarrow>
      (\<exists>v'. visitColl (snd (giveMedicines req d)) vid = Some v' \<and>
            prescribedMedicines v' = prescribedMedicines v))"
proof -
  let ?d' = "snd (giveMedicines req d)"
  have coll: "map name (medicineColl ?d') = map name (medicineColl d) \<and>
     map lowStockThreshold (medicineColl ?d') = map lowStockThreshold (medicineColl d) \<and>
     (\<forall>j<length (medicineColl d).
        name (medicineColl d ! j) \<notin>
          medicineName ` set (case medicines req of None \<Rightarrow> [] | Some items \<Rightarrow> items) \<longrightarrow>
        quantity (medicineColl ?d' ! j) = quantity (medicineColl d ! j))"
  proof -
    from giveMedicines_medicineColl[of req d] consider
      (same) "medicineColl ?d' = medicineColl d"
      | (run) items where "medicines req = Some items"
          "medicineColl ?d' = snd (deductInventory items (medicineColl d))"
      by blast
    then show ?thesis
    proof cases
      case same
      then show ?thesis by simp
    next
      case run
      with deductInventory_frame[of items "medicineColl d"] show ?thesis by simp
    qed
  qed
  have vis: "(\<forall>vid. visitId req \<noteq> Some vid \<longrightarrow> visitColl ?d' vid = visitColl d vid) \<and>
     (\<forall>vid v. visitColl d vid = Some v \<longrightarrow>
        (\<exists>v'. visitColl ?d' vid = Some v' \<and> prescribedMedicines v' = prescribedMedicines v))"
    using giveMedicines_visitColl[of req d] by (auto simp: fun_upd_def)
  from coll vis show ?thesis by blast
qed

theorem dispense_frame_witness:
  "map name (medicineColl (snd (giveMedicines (request ''v1'' [order ''A'' 3])
     \<lparr>medicineColl = [med ''A'' 10, med ''B'' 5],
       visitColl = [''v1'' \<mapsto> pendingVisit, ''v2'' \<mapsto> pendingVisit]\<rparr>))) = [''A'', ''B''] \<and>
   map lowStockThreshold (medicineColl (snd (giveMedicines (request ''v1'' [order ''A'' 3])
     \<lparr>medicineColl = [med ''A'' 10, med ''B'' 5],
       visitColl = [''v1'' \<mapsto> pendingVisit, ''v2'' \<mapsto> pendingVisit]\<rparr>))) = [0, 0] \<and>
   quantity (medicineColl (snd (giveMedicines (request ''v1'' [order ''A'' 3])
     \<lparr>medicineColl = [med ''A'' 10, med ''B'' 5],
       visitColl = [''v1'' \<mapsto> pendingVisit, ''v2'' \<mapsto> pendingVisit]\<rparr>)) ! 1) = 5 \<and>
   visitColl (snd (giveMedicines (request ''v1'' [order ''A'' 3])
     \<lparr>medicineColl = [med ''A'' 10, med ''B'' 5],
       visitColl = [''v1'' \<mapsto> pendingVisit, ''v2'' \<mapsto> pendingVisit]\<rparr>)) ''v2'' = Some pendingVisit \<and>
   fst (giveMedicines (request ''v1'' [order ''A'' 3])
     \<lparr>medicineColl = [med ''A'' 10, med ''B'' 5],
       visitColl = [''v1'' \<mapsto> pendingVisit, ''v2'' \<mapsto> pendingVisit]\<rparr>) = Success"
proof -
  let ?req = "request ''v1'' [order ''A'' 3]"
  let ?d = "\<lparr>medicineColl = [med ''A'' 10, med ''B'' 5],
       visitColl = [''v1'' \<mapsto> pendingVisit, ''v2'' \<mapsto> pendingVisit]\<rparr>"
  note t = dispense_frame[of ?req ?d]
  from t have n: "map name (medicineColl (snd (giveMedicines ?req ?d))) = map name (medicineColl ?d)"
    by blast
  from t have l: "map lowStockThreshold (medicineColl (snd (giveMedicines ?req ?d))) =
      map lowStockThreshold (medicineColl ?d)"
    by blast
  have j: "(1::nat) < length (medicineColl ?d)"
    and nj: "name (medicineColl ?d ! 1) \<notin>
        medicineName ` set (case medicines ?req of None \<Rightarrow> [] | Some items \<Rightarrow> items)"
    by (simp_all add: fixture_defs)
  from t j nj have q: "quantity (medicineColl (snd (giveMedicines ?req ?d)) ! 1) =
      quantity (medicineColl ?d ! 1)"
    by blast
  have "visitId ?req \<noteq> Some ''v2''" by (simp add: fixture_defs)
  with t have v: "visitColl (snd (giveMedicines ?req ?d)) ''v2'' = visitColl ?d ''v2''"
    by blast
  have s: "fst (giveMedicines ?req ?d) = Success"
    by (simp add: handler_defs fixture_defs)
  from n l q v s show ?thesis by (simp add: med_def)
qed

section \<open>The empty list\<close>

text \<open>
  Claim C10. A request with a visit id and a hospital id, for a visit not yet
  dispensed, whose \<open>medicines\<close> is the empty array, is answered with success:
  the visit is stored with \<open>medicineGiven\<close> true and \<open>givenMedicines\<close> empty,
  and the Medicine collection is not touched.
\<close>

theorem empty_list_accepted:
  assumes "visitId req = Some vid" "vid \<noteq> []" "hospitalId req = Some hid" "hid \<noteq> []"
    "medicines req = Some []" "visitColl d vid = Some v" "\<not> medicineGiven v"
  shows "giveMedicines req d =
           (Success, d\<lparr>visitColl := (visitColl d)(vid \<mapsto> v\<lparr>medicineGiven := True, givenMedicines := []\<rparr>)\<rparr>)"
  using assms by (simp add: giveMedicines_def falsy_def)

theorem empty_list_accepted_witness:
  "giveMedicines (request ''v1'' [])
     \<lparr>medicineColl = [med ''A'' 5], visitColl = [''v1'' \<mapsto> pendingVisit]\<rparr> =
   (Success,
    \<lparr>medicineColl = [med ''A'' 5],
      visitColl = [''v1'' \<mapsto> \<lparr>prescribedMedicines = [], medicineGiven = True, givenMedicines = []\<rparr>]\<rparr>)"
proof -
  let ?req = "request ''v1'' []"
  let ?d = "\<lparr>medicineColl = [med ''A'' 5], visitColl = [''v1'' \<mapsto> pendingVisit]\<rparr>"
  have h: "visitId ?req = Some ''v1''" "''v1'' \<noteq> []" "hospitalId ?req = Some ''h1''" "''h1'' \<noteq> []"
    "medicines ?req = Some []" "visitColl ?d ''v1'' = Some pendingVisit" "\<not> medicineGiven pendingVisit"
    by (simp_all add: fixture_defs)
  from empty_list_accepted[OF h] show ?thesis by (simp add: pendingVisit_def)
qed

end
